theory Spec2Isabelle
  imports Complex_Main
begin

section \<open>Conventions\<close>

text \<open>
  The development follows \<^verbatim>\<open>main-ktallam.ipynb\<close>. Python floats and tensor entries are
  real numbers (rounding is not modelled). A raised exception is the left injection of a
  sum type; Python's value \<^verbatim>\<open>None\<close> is the \<open>None\<close> of an option type. The functions of
  \<^verbatim>\<open>torch\<close>, \<^verbatim>\<open>scipy\<close> and \<^verbatim>\<open>copy\<close> that the code calls are either parameters of the
  definitions or given their documented behaviour, as said where they appear.
\<close>

datatype py_error =
    TypeError
  | AttributeError
  | ZeroDivisionError
  | RuntimeError
  | ValueError
  | ArpackNoConvergence

section \<open>Fixed-step integrators\<close>

text \<open>
  A call \<^verbatim>\<open>f(x)\<close> of the vector field is recorded in a log of the arguments \<open>f\<close> was
  evaluated at, so that the number of evaluations of a step is part of its result.
\<close>

definition call :: "('a \<Rightarrow> 'a) \<Rightarrow> 'a \<Rightarrow> 'a list \<Rightarrow> 'a \<times> 'a list" where
  "call f x log0 = (f x, log0 @ [x])"

text \<open>
  \<^verbatim>\<open>
  def euler_step_func(f, x, dt):
      k1 = f(x)
      x_out = x + dt * k1
      return x_out
  \<close>
\<close>

definition euler_step_func ::
  "('a::real_vector \<Rightarrow> 'a) \<Rightarrow> 'a \<Rightarrow> real \<Rightarrow> 'a list \<Rightarrow> 'a \<times> 'a list" where
  "euler_step_func f x dt log0 =
     (let (k1, log1) = call f x log0;
          x_out = x + dt *\<^sub>R k1
      in (x_out, log1))"

text \<open>
  \<^verbatim>\<open>
  def rk4_step_func(f, x, dt):
      k1 = f(x)
      x1 = x + 0.5 * dt * k1
      k2 = f(x1)
      x2 = x + 0.5 * dt * k2
      k3 = f(x2)
      x3 = x + dt * k3
      k4 = f(x3)
      x_out = x + dt * (1.0 / 6.0 * k1 + 1.0 / 3.0 * k2 + 1.0 / 3.0 * k3 + 1.0 / 6.0 * k4)
      return x_out
  \<close>
\<close>

definition rk4_step_func ::
  "('a::real_vector \<Rightarrow> 'a) \<Rightarrow> 'a \<Rightarrow> real \<Rightarrow> 'a list \<Rightarrow> 'a \<times> 'a list" where
  "rk4_step_func f x dt log0 =
     (let (k1, log1) = call f x log0;
          x1 = x + (0.5 * dt) *\<^sub>R k1;
          (k2, log2) = call f x1 log1;
          x2 = x + (0.5 * dt) *\<^sub>R k2;
          (k3, log3) = call f x2 log2;
          x3 = x + dt *\<^sub>R k3;
          (k4, log4) = call f x3 log3;
          x_out = x + dt *\<^sub>R ((1.0 / 6.0) *\<^sub>R k1 + (1.0 / 3.0) *\<^sub>R k2
                               + (1.0 / 3.0) *\<^sub>R k3 + (1.0 / 6.0) *\<^sub>R k4)
      in (x_out, log4))"

section \<open>The model object\<close>

text \<open>
  \<^verbatim>\<open>ShallowODE\<close> holds the network \<^verbatim>\<open>self.net\<close>, the step size \<^verbatim>\<open>self.dt\<close>
  (default \<^verbatim>\<open>None\<close>) and the name of the integrator \<^verbatim>\<open>self.method\<close>.
\<close>

record 'a ShallowODE =
  net :: "'a \<Rightarrow> 'a"
  dt :: "real option"
  "method" :: string

text \<open>
  \<^verbatim>\<open>
  def forward(self, x):
      if self.method == 'euler':
          x = euler_step_func(self.net, x, self.dt)
          return x
      elif self.method == 'rk4':
          x = rk4_step_func(self.net, x, self.dt)
          return x
  \<close>
  A body that falls off its end returns \<^verbatim>\<open>None\<close>. With \<^verbatim>\<open>self.dt\<close> still \<^verbatim>\<open>None\<close> the
  product \<^verbatim>\<open>dt * k1\<close> of either step raises a \<^verbatim>\<open>TypeError\<close>.
\<close>

definition forward ::
  "('a::real_vector) ShallowODE \<Rightarrow> 'a \<Rightarrow> 'a list \<Rightarrow> py_error + ('a option \<times> 'a list)" where
  "forward self x log0 =
     (if method self = ''euler'' then
        (case dt self of
           None \<Rightarrow> Inl TypeError
         | Some h \<Rightarrow> (let (y, log1) = euler_step_func (net self) x h log0 in Inr (Some y, log1)))
      else if method self = ''rk4'' then
        (case dt self of
           None \<Rightarrow> Inl TypeError
         | Some h \<Rightarrow> (let (y, log1) = rk4_step_func (net self) x h log0 in Inr (Some y, log1)))
      else Inr (None, log0))"

section \<open>The training loop\<close>

text \<open>
  The library operations \<^verbatim>\<open>train\<close> relies on are parameters of the model:
  \<^verbatim>\<open>torch.nn.MSELoss()\<close> followed by \<^verbatim>\<open>.item()\<close>, the constructors \<^verbatim>\<open>optim.Adam\<close> and
  \<^verbatim>\<open>LinearLR\<close> (which give and adjust the optimizer's own state), and
  \<^verbatim>\<open>loss.backward(); optimizer.step()\<close>, which computes the network that replaces
  \<^verbatim>\<open>ODEnet.net\<close> in place.
\<close>

record ('a, 'o) torch =
  MSELoss :: "'a \<Rightarrow> 'a \<Rightarrow> real"
  Adam :: "real \<Rightarrow> real \<Rightarrow> 'o"
  LinearLR :: "'o \<Rightarrow> 'o"
  backward_step :: "'o \<Rightarrow> 'a ShallowODE \<Rightarrow> 'a \<Rightarrow> 'a \<Rightarrow> 'o \<times> ('a \<Rightarrow> 'a)"

text \<open>
  Model objects live in a store: an object is named by its address, the index of its
  cell, and a reference that the program holds is the address of a cell of the store.
  \<^verbatim>\<open>copy.deepcopy\<close> allocates a new cell holding a copy of the fields, and the
  optimizer writes to the cell of the object it was built for.
\<close>

type_synonym 'a store = "'a ShallowODE list"

definition deepcopy :: "'a store \<Rightarrow> nat \<Rightarrow> nat \<times> 'a store" where
  "deepcopy hp a = (length hp, hp @ [hp ! a])"

definition optimizer_write :: "'a store \<Rightarrow> nat \<Rightarrow> ('a \<Rightarrow> 'a) \<Rightarrow> 'a store" where
  "optimizer_write hp a g = hp[a := (hp ! a)\<lparr>net := g\<rparr>]"

text \<open>\<^verbatim>\<open>float('inf')\<close> is the only non-finite float the loop creates itself.\<close>

datatype pyfloat = Fin real | PosInf

fun py_less :: "real \<Rightarrow> pyfloat \<Rightarrow> bool" where
  "py_less x (Fin y) = (x < y)"
| "py_less x PosInf = True"

text \<open>
  \<^verbatim>\<open>min(xs, default=d)\<close>: the default for an empty list, else the first least element,
  found by a left-to-right scan that replaces the candidate on a strictly smaller item.
\<close>

fun py_min :: "real list \<Rightarrow> pyfloat \<Rightarrow> pyfloat" where
  "py_min [] d = d"
| "py_min (x # xs) d = Fin (foldl (\<lambda>m y. if y < m then y else m) x xs)"

text \<open>\<^verbatim>\<open>acc /= len(loader)\<close> on a float accumulator.\<close>

definition div_len :: "real \<Rightarrow> 'b list \<Rightarrow> py_error + real" where
  "div_len acc loader =
     (if length loader = 0 then Inl ZeroDivisionError else Inr (acc / real (length loader)))"

text \<open>
  \<^verbatim>\<open>
  for batch_idx, (inputs, targets) in enumerate(train_loader):
      optimizer_ODEnet.zero_grad()
      outputs = ODEnet(inputs)
      loss = criterion(outputs, targets)
      loss.backward()
      optimizer_ODEnet.step()
      loss_ave += loss.item()
      ode_loss_hist.append(loss.item())
  \<close>
  The state of the loop is the store, the optimizer's state, \<^verbatim>\<open>loss_ave\<close> and
  \<^verbatim>\<open>ode_loss_hist\<close>. When \<^verbatim>\<open>ODEnet(inputs)\<close> is \<^verbatim>\<open>None\<close> the criterion raises an
  \<^verbatim>\<open>AttributeError\<close>.
\<close>

fun train_batches ::
  "('a::real_vector, 'o) torch \<Rightarrow> nat \<Rightarrow> ('a \<times> 'a) list
   \<Rightarrow> 'a store \<times> 'o \<times> real \<times> real list
   \<Rightarrow> py_error + ('a store \<times> 'o \<times> real \<times> real list)" where
  "train_batches lib a [] st = Inr st"
| "train_batches lib a ((inputs, targets) # rest) (hp, os, loss_ave, hist) =
     (case forward (hp ! a) inputs [] of
        Inl e \<Rightarrow> Inl e
      | Inr (None, _) \<Rightarrow> Inl AttributeError
      | Inr (Some outputs, _) \<Rightarrow>
          (let loss = MSELoss lib outputs targets;
               (os', g) = backward_step lib os (hp ! a) inputs targets;
               hp' = optimizer_write hp a g
           in train_batches lib a rest (hp', os', loss_ave + loss, hist @ [loss])))"

text \<open>
  \<^verbatim>\<open>
  for batch_idx, (inputs, targets) in enumerate(test_loader):
      outputs = ODEnet(inputs)
      test_loss = criterion(outputs, targets)
      test_loss_ave += test_loss.item()
  \<close>
\<close>

fun test_batches ::
  "('a::real_vector, 'o) torch \<Rightarrow> 'a ShallowODE \<Rightarrow> ('a \<times> 'a) list \<Rightarrow> real
   \<Rightarrow> py_error + real" where
  "test_batches lib m [] test_loss_ave = Inr test_loss_ave"
| "test_batches lib m ((inputs, targets) # rest) test_loss_ave =
     (case forward m inputs [] of
        Inl e \<Rightarrow> Inl e
      | Inr (None, _) \<Rightarrow> Inl AttributeError
      | Inr (Some outputs, _) \<Rightarrow>
          test_batches lib m rest (test_loss_ave + MSELoss lib outputs targets))"

record ('a, 'o) train_state =
  objects :: "'a store"
  optimizer_ODEnet :: 'o
  ODEnet_best :: "nat option"
  ode_loss_hist :: "real list"
  ode_loss_ave_hist :: "real list"
  ode_test_loss_ave_hist :: "real list"

text \<open>
  One pass of the body of \<^verbatim>\<open>for epoch in range(1, NUMBER_EPOCHS + 1)\<close>, for the model
  object at address \<open>a\<close>. The epoch's average is appended to
  \<^verbatim>\<open>ode_test_loss_ave_hist\<close> first; then
  \<^verbatim>\<open>
  if test_loss_ave < min(ode_test_loss_ave_hist, default=float('inf')):
      ODEnet_best = copy.deepcopy(ODEnet)
  \<close>
  The two \<^verbatim>\<open>print\<close> statements are the only uses of \<^verbatim>\<open>epoch\<close>.
\<close>

definition epoch_body ::
  "('a::real_vector, 'o) torch \<Rightarrow> nat \<Rightarrow> ('a \<times> 'a) list \<Rightarrow> ('a \<times> 'a) list
   \<Rightarrow> ('a, 'o) train_state \<Rightarrow> py_error + ('a, 'o) train_state" where
  "epoch_body lib a train_loader test_loader st =
     (case train_batches lib a train_loader
             (objects st, optimizer_ODEnet st, 0, ode_loss_hist st) of
        Inl e \<Rightarrow> Inl e
      | Inr (hp, os, loss_sum, hist) \<Rightarrow>
     (case div_len loss_sum train_loader of
        Inl e \<Rightarrow> Inl e
      | Inr loss_ave \<Rightarrow>
     (case test_batches lib (hp ! a) test_loader 0 of
        Inl e \<Rightarrow> Inl e
      | Inr test_sum \<Rightarrow>
     (case div_len test_sum test_loader of
        Inl e \<Rightarrow> Inl e
      | Inr test_loss_ave \<Rightarrow>
          (let test_hist = ode_test_loss_ave_hist st @ [test_loss_ave];
               (best, hp') =
                  (if py_less test_loss_ave (py_min test_hist PosInf)
                   then (let (b, hp1) = deepcopy hp a in (Some b, hp1))
                   else (ODEnet_best st, hp))
           in Inr \<lparr>objects = hp', optimizer_ODEnet = os, ODEnet_best = best,
                    ode_loss_hist = hist,
                    ode_loss_ave_hist = ode_loss_ave_hist st @ [loss_ave],
                    ode_test_loss_ave_hist = test_hist\<rparr>)))))"

fun train_epochs ::
  "('a::real_vector, 'o) torch \<Rightarrow> nat \<Rightarrow> ('a \<times> 'a) list \<Rightarrow> ('a \<times> 'a) list
   \<Rightarrow> nat list \<Rightarrow> ('a, 'o) train_state \<Rightarrow> py_error + ('a, 'o) train_state" where
  "train_epochs lib a train_loader test_loader [] st = Inr st"
| "train_epochs lib a train_loader test_loader (epoch # rest) st =
     (case epoch_body lib a train_loader test_loader st of
        Inl e \<Rightarrow> Inl e
      | Inr st' \<Rightarrow> train_epochs lib a train_loader test_loader rest st')"

definition NUMBER_EPOCHS :: nat where
  "NUMBER_EPOCHS = 1000"

text \<open>
  \<^verbatim>\<open>train(ODEnet, train_loader, test_loader, lr, wd, method, dt)\<close>, with the number of
  epochs as an argument; \<^verbatim>\<open>ODEnet\<close> is the address of the model object. The result is
  the final store and the tuple
  \<^verbatim>\<open>ODEnet, ODEnet_best, ode_loss_hist, ode_test_loss_ave_hist\<close>.
\<close>

definition train_for ::
  "nat \<Rightarrow> ('a::real_vector, 'o) torch \<Rightarrow> 'a store \<Rightarrow> nat \<Rightarrow> ('a \<times> 'a) list \<Rightarrow> ('a \<times> 'a) list
   \<Rightarrow> real \<Rightarrow> real \<Rightarrow> string \<Rightarrow> real
   \<Rightarrow> py_error + ('a store \<times> nat \<times> nat option \<times> real list \<times> real list)" where
  "train_for n lib hp ODEnet train_loader test_loader lr wd method0 dt0 =
     (let os = LinearLR lib (Adam lib lr wd);
          hp0 = hp[ODEnet := (hp ! ODEnet)\<lparr>dt := Some dt0, method := method0\<rparr>];
          st0 = \<lparr>objects = hp0, optimizer_ODEnet = os, ODEnet_best = None,
                 ode_loss_hist = [], ode_loss_ave_hist = [], ode_test_loss_ave_hist = []\<rparr>
      in case train_epochs lib ODEnet train_loader test_loader [1 ..< n + 1] st0 of
           Inl e \<Rightarrow> Inl e
         | Inr st \<Rightarrow>
             Inr (objects st, ODEnet, ODEnet_best st, ode_loss_hist st,
                  ode_test_loss_ave_hist st))"

definition train ::
  "('a::real_vector, 'o) torch \<Rightarrow> 'a store \<Rightarrow> nat \<Rightarrow> ('a \<times> 'a) list \<Rightarrow> ('a \<times> 'a) list
   \<Rightarrow> real \<Rightarrow> real \<Rightarrow> string \<Rightarrow> real
   \<Rightarrow> py_error + ('a store \<times> nat \<times> nat option \<times> real list \<times> real list)" where
  "train = train_for NUMBER_EPOCHS"

text \<open>
  A model object is ready for a step when its integrator is one of the two \<^verbatim>\<open>forward\<close>
  knows and its step size is set.
\<close>

definition ready :: "'a ShallowODE \<Rightarrow> bool" where
  "ready m = ((method m = ''euler'' \<or> method m = ''rk4'') \<and> dt m \<noteq> None)"

section \<open>Computation graphs and their gradients\<close>

text \<open>
  A scalar that \<^verbatim>\<open>torch\<close> can differentiate is the graph of the operations that produced
  it from the scalar entries of the parameter tensors. \<open>Param i\<close> is the entry with the
  identifier \<open>i\<close>; \<open>eval\<close> gives the value of a graph at the parameter values \<open>\<theta>\<close>.
\<close>

datatype expr =
    Const real
  | Param nat
  | Add expr expr
  | Mul expr expr
  | Tanh expr

fun eval :: "(nat \<Rightarrow> real) \<Rightarrow> expr \<Rightarrow> real" where
  "eval \<theta> (Const c) = c"
| "eval \<theta> (Param i) = \<theta> i"
| "eval \<theta> (Add a b) = eval \<theta> a + eval \<theta> b"
| "eval \<theta> (Mul a b) = eval \<theta> a * eval \<theta> b"
| "eval \<theta> (Tanh a) = tanh (eval \<theta> a)"

text \<open>
  A graph reaches a parameter entry when the entry is one of its leaves. A constant has
  no graph behind it.
\<close>

fun occurs :: "nat \<Rightarrow> expr \<Rightarrow> bool" where
  "occurs i (Const c) = False"
| "occurs i (Param j) = (i = j)"
| "occurs i (Add a b) = (occurs i a \<or> occurs i b)"
| "occurs i (Mul a b) = (occurs i a \<or> occurs i b)"
| "occurs i (Tanh a) = occurs i a"

text \<open>
  The derivative of a graph with respect to one parameter entry, itself a graph (as with
  \<^verbatim>\<open>create_graph=True\<close>), as the backward pass builds it: the gradient flows only into the
  operands that reach the entry, a sum hands it on, a product multiplies it by the other
  operand, \<^verbatim>\<open>tanh\<close> by one minus the square of its output. So the derivative reaches the
  entries of the operands it was multiplied by, and is a constant when there are none.
\<close>

fun partial :: "nat \<Rightarrow> expr \<Rightarrow> expr" where
  "partial i (Const c) = Const 0"
| "partial i (Param j) = Const (if i = j then 1 else 0)"
| "partial i (Add a b) = Add (partial i a) (partial i b)"
| "partial i (Mul a b) =
     Add (if occurs i a then Mul (partial i a) b else Const 0)
         (if occurs i b then Mul a (partial i b) else Const 0)"
| "partial i (Tanh a) =
     (if occurs i a
      then Mul (Add (Const 1) (Mul (Const (- 1)) (Mul (Tanh a) (Tanh a)))) (partial i a)
      else Const 0)"

text \<open>
  A module: the values of its parameter entries and \<^verbatim>\<open>model.parameters()\<close>, the list of
  its parameter tensors, each the list of its entries in the order of \<^verbatim>\<open>view(-1)\<close>. The
  \<^verbatim>\<open>.grad\<close> fields of the entries are a store of their own; \<^verbatim>\<open>model.zero_grad()\<close> clears
  those of the module's parameters.
\<close>

record nn_module =
  theta :: "nat \<Rightarrow> real"
  parameters :: "nat list list"

type_synonym grad_store = "nat \<Rightarrow> real option"

definition zero_grad :: "nn_module \<Rightarrow> grad_store \<Rightarrow> grad_store" where
  "zero_grad model grads =
     (\<lambda>i. if i \<in> set (concat (parameters model)) then None else grads i)"

text \<open>
  \<^verbatim>\<open>torch.autograd.grad(out, inputs, ...)\<close> with the default \<^verbatim>\<open>allow_unused\<close>: one tensor
  of derivatives per input tensor, in the order of the inputs. An empty list of inputs is
  refused, and so is an input tensor that the graph of \<^verbatim>\<open>out\<close> does not reach (none of
  its entries is a leaf of the graph; in particular every input when \<^verbatim>\<open>out\<close> is a
  constant).
\<close>

definition reached :: "expr \<Rightarrow> nat list \<Rightarrow> bool" where
  "reached out tensor = list_ex (\<lambda>i. occurs i out) tensor"

definition autograd_grad :: "expr \<Rightarrow> nat list list \<Rightarrow> py_error + expr list list" where
  "autograd_grad out inputs =
     (if inputs = [] then Inl ValueError
      else if \<not> list_all (reached out) inputs then Inl RuntimeError
      else Inr (map (map (\<lambda>i. partial i out)) inputs))"

text \<open>\<^verbatim>\<open>torch.cat\<close> along the first dimension; an empty list of tensors is refused.\<close>

definition torch_cat :: "'a list list \<Rightarrow> py_error + 'a list" where
  "torch_cat tensors = (if tensors = [] then Inl RuntimeError else Inr (concat tensors))"

text \<open>
  The product \<^verbatim>\<open>flat_grad * vector\<close> of two one-dimensional tensors: entry by entry for
  equal sizes; a tensor of size one is broadcast against the other; any other pair of
  sizes raises a \<^verbatim>\<open>RuntimeError\<close>.
\<close>

definition tensor_mul :: "expr list \<Rightarrow> real list \<Rightarrow> py_error + expr list" where
  "tensor_mul a b =
     (if length a = length b then Inr (map2 (\<lambda>g c. Mul g (Const c)) a b)
      else if length a = 1 then Inr (map (\<lambda>c. Mul (hd a) (Const c)) b)
      else if length b = 1 then Inr (map (\<lambda>g. Mul g (Const (hd b))) a)
      else Inl RuntimeError)"

definition torch_sum :: "expr list \<Rightarrow> expr" where
  "torch_sum es = foldr Add es (Const 0)"

section \<open>Hessian-vector products and the eigensolver\<close>

text \<open>
  \<^verbatim>\<open>
  def hessian_vector_product(vector):
      model.zero_grad()
      grad_params = grad(compute_loss_fn(model, subset_images, subset_labels),
                         param_extract_fn(model), create_graph=True)
      flat_grad = torch.cat([g.view(-1) for g in grad_params])
      grad_vector_product = torch.sum(flat_grad * vector)
      hvp = grad(grad_vector_product, param_extract_fn(model), retain_graph=True)
      return torch.cat([g.contiguous().view(-1) for g in hvp])
  \<close>
  The variables the closure captures are arguments here, and the result comes with the
  store of \<^verbatim>\<open>.grad\<close> fields as the call leaves it.
\<close>

definition hessian_vector_product ::
  "(nn_module \<Rightarrow> 'x list \<Rightarrow> 'y list \<Rightarrow> expr) \<Rightarrow> (nn_module \<Rightarrow> nat list list)
   \<Rightarrow> nn_module \<Rightarrow> 'x list \<Rightarrow> 'y list \<Rightarrow> grad_store \<Rightarrow> real list
   \<Rightarrow> py_error + (real list \<times> grad_store)" where
  "hessian_vector_product compute_loss_fn param_extract_fn model subset_images subset_labels
      grads vector =
     (let grads1 = zero_grad model grads in
      case autograd_grad (compute_loss_fn model subset_images subset_labels)
             (param_extract_fn model) of
        Inl e \<Rightarrow> Inl e
      | Inr grad_params \<Rightarrow>
     (case torch_cat grad_params of
        Inl e \<Rightarrow> Inl e
      | Inr flat_grad \<Rightarrow>
     (case tensor_mul flat_grad vector of
        Inl e \<Rightarrow> Inl e
      | Inr products \<Rightarrow>
     (let grad_vector_product = torch_sum products in
      case autograd_grad grad_vector_product (param_extract_fn model) of
        Inl e \<Rightarrow> Inl e
      | Inr hvp \<Rightarrow>
     (case torch_cat hvp of
        Inl e \<Rightarrow> Inl e
      | Inr flat_hvp \<Rightarrow> Inr (map (eval (theta model)) flat_hvp, grads1))))))"

text \<open>
  \<^verbatim>\<open>
  def matvec(v):
      v_tensor = torch.tensor(v, dtype=torch.float32, device=device)
      return hessian_vector_product(v_tensor).cpu().detach().numpy()
  \<close>
\<close>

definition matvec ::
  "(nn_module \<Rightarrow> 'x list \<Rightarrow> 'y list \<Rightarrow> expr) \<Rightarrow> (nn_module \<Rightarrow> nat list list)
   \<Rightarrow> nn_module \<Rightarrow> 'x list \<Rightarrow> 'y list \<Rightarrow> grad_store \<Rightarrow> real list
   \<Rightarrow> py_error + real list" where
  "matvec compute_loss_fn param_extract_fn model subset_images subset_labels grads v =
     map_sum id fst
       (hessian_vector_product compute_loss_fn param_extract_fn model subset_images
          subset_labels grads v)"

text \<open>
  \<^verbatim>\<open>
  subset_images, subset_labels = [], []
  for batch_idx, (images, labels) in enumerate(train_data_loader):
      if batch_idx >= num_batches:
          break
      subset_images.append(images.to(device))
      subset_labels.append(labels.to(device))
  subset_images = torch.cat(subset_images)
  subset_labels = torch.cat(subset_labels)
  \<close>
  A batch is the list of its samples.
\<close>

fun collect_batches ::
  "('x list \<times> 'y list) list \<Rightarrow> int \<Rightarrow> int \<Rightarrow> 'x list list \<times> 'y list list
   \<Rightarrow> 'x list list \<times> 'y list list" where
  "collect_batches [] batch_idx num_batches acc = acc"
| "collect_batches ((images, labels) # rest) batch_idx num_batches
      (subset_images, subset_labels) =
     (if batch_idx \<ge> num_batches then (subset_images, subset_labels)
      else collect_batches rest (batch_idx + 1) num_batches
             (subset_images @ [images], subset_labels @ [labels]))"

definition frozen_subset ::
  "('x list \<times> 'y list) list \<Rightarrow> int \<Rightarrow> py_error + ('x list \<times> 'y list)" where
  "frozen_subset train_data_loader num_batches =
     (let (subset_images, subset_labels) =
            collect_batches train_data_loader 0 num_batches ([], [])
      in case torch_cat subset_images of
           Inl e \<Rightarrow> Inl e
         | Inr images \<Rightarrow>
             (case torch_cat subset_labels of
                Inl e \<Rightarrow> Inl e
              | Inr labels \<Rightarrow> Inr (images, labels)))"

text \<open>A two-dimensional array with its shape, and \<^verbatim>\<open>np.transpose\<close> of it.\<close>

record ndarray2 =
  nrows :: nat
  ncols :: nat
  rows :: "real list list"

definition np_transpose :: "ndarray2 \<Rightarrow> ndarray2" where
  "np_transpose A =
     \<lparr>nrows = ncols A, ncols = nrows A,
      rows = map (\<lambda>j. map (\<lambda>r. r ! j) (rows A)) [0 ..< ncols A]\<rparr>"

text \<open>
  \<^verbatim>\<open>LinearOperator((n, n), matvec=mv)\<close> of \<^verbatim>\<open>scipy\<close>, applied to a one-dimensional array:
  an array whose length is not \<open>n\<close> is refused with \<^verbatim>\<open>ValueError('dimension mismatch')\<close>
  before \<^verbatim>\<open>mv\<close> is called, and the result of \<^verbatim>\<open>mv\<close> is reshaped to the length \<open>n\<close>, which
  fails for any other length.
\<close>

definition LinearOperator ::
  "nat \<Rightarrow> (real list \<Rightarrow> py_error + real list) \<Rightarrow> real list \<Rightarrow> py_error + real list" where
  "LinearOperator n mv x =
     (if length x \<noteq> n then Inl ValueError
      else case mv x of
             Inl e \<Rightarrow> Inl e
           | Inr y \<Rightarrow> (if length y \<noteq> n then Inl ValueError else Inr y))"

text \<open>
  \<^verbatim>\<open>eigsh(linear_operator, k=k, tol=0.001, which='LM', return_eigenvectors=True)\<close> of
  \<^verbatim>\<open>scipy\<close> is a parameter: from the size of the operator, the operator and \<open>k\<close> it gives
  the eigenvalues and the array of eigenvectors, or raises.
\<close>

type_synonym eigsh_fn =
  "nat \<Rightarrow> (real list \<Rightarrow> py_error + real list) \<Rightarrow> nat \<Rightarrow> py_error + (real list \<times> ndarray2)"

text \<open>
  \<^verbatim>\<open>
  def get_hessian_eigenvectors(model, compute_loss_fn, train_data_loader, num_batches,
                               device, n_top_vectors, param_extract_fn=None):
      if param_extract_fn is None:
          param_extract_fn = lambda x: x.parameters()
      num_params = sum(p.numel() for p in param_extract_fn(model))
      ...
      linear_operator = LinearOperator((num_params, num_params), matvec=matvec)
      eigenvalues, eigenvectors = eigsh(linear_operator, k=n_top_vectors, tol=0.001,
                                        which='LM', return_eigenvectors=True)
      eigenvectors = np.transpose(eigenvectors)
      return eigenvalues, eigenvectors
  \<close>
  The closures \<^verbatim>\<open>hessian_vector_product\<close> and \<^verbatim>\<open>matvec\<close> are local to the function: the
  operator is the only way to them. The result of a product does not depend on the
  \<^verbatim>\<open>.grad\<close> fields, so the operator is given the store as it is on entry.
\<close>

definition linear_operator ::
  "(nn_module \<Rightarrow> 'x list \<Rightarrow> 'y list \<Rightarrow> expr) \<Rightarrow> (nn_module \<Rightarrow> nat list list)
   \<Rightarrow> nn_module \<Rightarrow> 'x list \<Rightarrow> 'y list \<Rightarrow> grad_store \<Rightarrow> real list
   \<Rightarrow> py_error + real list" where
  "linear_operator compute_loss_fn param_extract_fn model subset_images subset_labels grads =
     LinearOperator (sum_list (map length (param_extract_fn model)))
       (matvec compute_loss_fn param_extract_fn model subset_images subset_labels grads)"

definition get_hessian_eigenvectors ::
  "eigsh_fn \<Rightarrow> nn_module \<Rightarrow> (nn_module \<Rightarrow> 'x list \<Rightarrow> 'y list \<Rightarrow> expr)
   \<Rightarrow> ('x list \<times> 'y list) list \<Rightarrow> int \<Rightarrow> string \<Rightarrow> nat
   \<Rightarrow> (nn_module \<Rightarrow> nat list list) option \<Rightarrow> grad_store
   \<Rightarrow> py_error + (real list \<times> ndarray2)" where
  "get_hessian_eigenvectors eigsh model compute_loss_fn train_data_loader num_batches device
      n_top_vectors param_extract_fn0 grads =
     (let param_extract_fn =
            (case param_extract_fn0 of None \<Rightarrow> parameters | Some f \<Rightarrow> f);
          num_params = sum_list (map length (param_extract_fn model))
      in case frozen_subset train_data_loader num_batches of
           Inl e \<Rightarrow> Inl e
         | Inr (subset_images, subset_labels) \<Rightarrow>
             (case eigsh num_params
                     (linear_operator compute_loss_fn param_extract_fn model subset_images
                        subset_labels grads)
                     n_top_vectors of
                Inl e \<Rightarrow> Inl e
              | Inr (eigenvalues, eigenvectors) \<Rightarrow>
                  Inr (eigenvalues, np_transpose eigenvectors)))"

section \<open>What the specification says of the oracle and the solver\<close>

text \<open>
  The specification's definition of the product by double backpropagation, in its own
  steps: the gradient \<open>g\<close> of the loss with respect to the selected parameters, with its
  graph; \<open>g\<close> flattened in the order of the selection; the scalar \<open>s = g \<cdot> v\<close>; the
  gradient of \<open>s\<close> with respect to the same parameters, flattened in the same order.
\<close>

definition dot_graph :: "expr list \<Rightarrow> real list \<Rightarrow> expr" where
  "dot_graph g v = torch_sum (map2 (\<lambda>gi vi. Mul gi (Const vi)) g v)"

definition double_backprop ::
  "expr \<Rightarrow> nat list list \<Rightarrow> (nat \<Rightarrow> real) \<Rightarrow> real list \<Rightarrow> py_error + real list" where
  "double_backprop loss selected \<theta> v =
     (case autograd_grad loss selected of
        Inl e \<Rightarrow> Inl e
      | Inr g \<Rightarrow>
          (let flat_g = concat g;
               s = dot_graph flat_g v
           in case autograd_grad s selected of
                Inl e \<Rightarrow> Inl e
              | Inr hv \<Rightarrow> Inr (map (eval \<theta>) (concat hv))))"

definition dot :: "real list \<Rightarrow> real list \<Rightarrow> real" where
  "dot xs ys = sum_list (map2 (*) xs ys)"

text \<open>
  What the iterative solver of the library delivers when it returns: \<open>k\<close> eigenvalues in
  ascending order and an \<open>n \<times> k\<close> array whose column \<open>i\<close> belongs to eigenvalue \<open>i\<close>.
\<close>

definition eigsh_contract :: "eigsh_fn \<Rightarrow> bool" where
  "eigsh_contract eigsh =
     (\<forall>n A k w V. eigsh n A k = Inr (w, V) \<longrightarrow>
        sorted w \<and> length w = k \<and> nrows V = n \<and> ncols V = k
        \<and> length (rows V) = n \<and> (\<forall>r \<in> set (rows V). length r = k))"

section \<open>A small run\<close>

text \<open>
  A one-dimensional instance for concrete runs: the squared error as criterion, an
  optimizer without state whose step lowers the network's output by one, and the
  network \<open>x \<mapsto> - x\<close>.
\<close>

definition demo_lib :: "(real, unit) torch" where
  "demo_lib =
     \<lparr>MSELoss = (\<lambda>outputs targets. (outputs - targets) * (outputs - targets)),
      Adam = (\<lambda>lr wd. ()),
      LinearLR = (\<lambda>os. os),
      backward_step = (\<lambda>os m inputs targets. (os, (\<lambda>x. net m x - 1)))\<rparr>"

definition demo_model :: "real ShallowODE" where
  "demo_model = \<lparr>net = (\<lambda>x. - x), dt = None, method = ''euler''\<rparr>"

text \<open>
  Two losses for concrete products. The first has the Hessian
  \<open>[[2 \<theta>\<^sub>1, 2 \<theta>\<^sub>0], [2 \<theta>\<^sub>0, 2]]\<close>, which is \<open>[[4, 2], [2, 2]]\<close> at \<open>\<theta> = (1, 2)\<close>; the second
  has the constant Hessian with the diagonal \<open>2, 4, 6\<close>.
\<close>

definition demo_loss :: "nn_module \<Rightarrow> real list \<Rightarrow> real list \<Rightarrow> expr" where
  "demo_loss model images labels =
     Add (Mul (Mul (Param 0) (Param 0)) (Param 1)) (Mul (Param 1) (Param 1))"

definition demo_module :: nn_module where
  "demo_module = \<lparr>theta = (\<lambda>i. if i = 0 then 1 else 2), parameters = [[0], [1]]\<rparr>"

definition no_grads :: grad_store where
  "no_grads = (\<lambda>i. None)"

definition stale_grads :: grad_store where
  "stale_grads = (\<lambda>i. Some 7)"

definition diag_loss :: "nn_module \<Rightarrow> real list \<Rightarrow> real list \<Rightarrow> expr" where
  "diag_loss model images labels =
     Add (Mul (Param 0) (Param 0))
       (Add (Mul (Const 2) (Mul (Param 1) (Param 1)))
            (Mul (Const 3) (Mul (Param 2) (Param 2))))"

definition diag_module :: nn_module where
  "diag_module = \<lparr>theta = (\<lambda>i. 1), parameters = [[0, 1], [2]]\<rparr>"

text \<open>
  A solver that answers one question only: for an operator of size three that maps the
  second and third unit vectors to four and six times themselves, the two eigenpairs of
  largest magnitude.
\<close>

text \<open>
  A loss that is linear in its second parameter, and a loss with a third parameter
  together with a selection that adds this parameter, which the module does not own, to
  the module's.
\<close>

definition linear_loss :: "nn_module \<Rightarrow> real list \<Rightarrow> real list \<Rightarrow> expr" where
  "linear_loss model images labels = Add (Mul (Param 0) (Param 0)) (Param 1)"

definition wider_loss :: "nn_module \<Rightarrow> real list \<Rightarrow> real list \<Rightarrow> expr" where
  "wider_loss model images labels =
     Add (Mul (Mul (Param 0) (Param 0)) (Param 1))
       (Add (Mul (Param 1) (Param 1)) (Mul (Param 2) (Param 2)))"

definition wider_selection :: "nn_module \<Rightarrow> nat list list" where
  "wider_selection model = parameters model @ [[2]]"

definition demo_eigsh :: eigsh_fn where
  "demo_eigsh n A k =
     (if n = 3 \<and> k = 2 \<and> A [0, 1, 0] = Inr [0, 4, 0] \<and> A [0, 0, 1] = Inr [0, 0, 6]
      then Inr ([4, 6], \<lparr>nrows = 3, ncols = 2, rows = [[0, 0], [1, 0], [0, 1]]\<rparr>)
      else Inl ArpackNoConvergence)"

section \<open>Integrator steps\<close>

text \<open>
  C3. One Euler step returns \<open>x + h * f x\<close> and evaluates \<open>f\<close> exactly once, at \<open>x\<close>;
  for \<open>f x = - x\<close> and step size \<open>0.1\<close> the step from \<open>1\<close> returns \<open>0.9\<close>.
\<close>

theorem euler_step_func_one_evaluation:
  "euler_step_func f x h log0 = (x + h *\<^sub>R f x, log0 @ [x])
   \<and> length (snd (euler_step_func f x h log0)) = length log0 + 1
   \<and> fst (euler_step_func (\<lambda>y::real. - y) 1 0.1 []) = 0.9"
  by (simp add: euler_step_func_def call_def)

text \<open>
  C4. One RK4 step evaluates \<open>f\<close> exactly four times, at \<open>x\<close>, \<open>x + h/2 * k1\<close>,
  \<open>x + h/2 * k2\<close> and \<open>x + h * k3\<close> in this order, and returns
  \<open>x + h * (k1/6 + k2/3 + k3/3 + k4/6)\<close> for the step size \<open>h\<close>.
\<close>

theorem rk4_step_func_four_evaluations:
  fixes f :: "'a::real_vector \<Rightarrow> 'a"
  shows "(let k1 = f x;
              k2 = f (x + (h / 2) *\<^sub>R k1);
              k3 = f (x + (h / 2) *\<^sub>R k2);
              k4 = f (x + h *\<^sub>R k3)
          in rk4_step_func f x h log0 =
               (x + h *\<^sub>R (k1 /\<^sub>R 6 + k2 /\<^sub>R 3 + k3 /\<^sub>R 3 + k4 /\<^sub>R 6),
                log0 @ [x, x + (h / 2) *\<^sub>R k1, x + (h / 2) *\<^sub>R k2, x + h *\<^sub>R k3]))
         \<and> length (snd (rk4_step_func f x h log0)) = length log0 + 4"
  by (simp add: rk4_step_func_def call_def Let_def)

section \<open>The unknown integrator\<close>

text \<open>
  C10. For every input state, a model whose \<^verbatim>\<open>method\<close> is neither \<^verbatim>\<open>'euler'\<close> nor
  \<^verbatim>\<open>'rk4'\<close> makes \<^verbatim>\<open>forward\<close> return \<^verbatim>\<open>None\<close> without raising and without evaluating
  the network: a predicted state is returned only for the two known integrators.
\<close>

theorem forward_unknown_method:
  assumes "method self \<noteq> ''euler''" and "method self \<noteq> ''rk4''"
  shows "forward self x log0 = Inr (None, log0)"
  using assms by (simp add: forward_def)

theorem forward_unknown_method_witness:
  "forward \<lparr>net = (\<lambda>x::real. - x), dt = Some (1/10), method = ''midpoint''\<rparr> 1 []
     = Inr (None, [])"
  using forward_unknown_method
    [of "\<lparr>net = (\<lambda>x::real. - x), dt = Some (1/10), method = ''midpoint''\<rparr>" 1 "[]"]
  by simp

lemma forward_ready:
  assumes "ready m"
  shows "\<exists>y l. forward m x log0 = Inr (Some y, l)"
  using assms by (auto simp: ready_def forward_def split: prod.splits)

section \<open>The best checkpoint\<close>

subsection \<open>The scan for the minimum\<close>

lemma scan_min_le:
  fixes m :: real
  shows "foldl (\<lambda>m y. if y < m then y else m) m ys \<le> m
         \<and> (\<forall>y\<in>set ys. foldl (\<lambda>m y. if y < m then y else m) m ys \<le> y)"
proof (induction ys arbitrary: m)
  case Nil
  show ?case by simp
next
  case (Cons y ys)
  show ?case
  proof (cases "y < m")
    case True
    with Cons[of y] show ?thesis by (auto intro: order_trans less_imp_le)
  next
    case False
    with Cons[of m] show ?thesis by (auto intro: order_trans)
  qed
qed

lemma py_min_not_above_member:
  assumes mem: "x \<in> set xs"
  shows "\<not> py_less x (py_min xs d)"
proof (cases xs)
  case Nil
  with mem show ?thesis by simp
next
  case (Cons y ys)
  have "foldl (\<lambda>m y. if y < m then y else m) y ys \<le> x"
    using scan_min_le[of y ys] mem Cons by auto
  then show ?thesis using Cons by simp
qed

subsection \<open>An epoch never replaces the checkpoint\<close>

lemma epoch_body_best:
  assumes "epoch_body lib a train_loader test_loader st = Inr st'"
  shows "ODEnet_best st' = ODEnet_best st"
proof -
  have no: "\<And>t. \<not> py_less t (py_min (ode_test_loss_ave_hist st @ [t]) PosInf)"
    by (rule py_min_not_above_member) simp
  show ?thesis
    using assms no
    by (auto simp: epoch_body_def Let_def split: sum.splits prod.splits if_splits)
qed

lemma train_epochs_best:
  "train_epochs lib a train_loader test_loader es st = Inr st'
   \<Longrightarrow> ODEnet_best st' = ODEnet_best st"
proof (induction es arbitrary: st)
  case Nil
  then show ?case by simp
next
  case (Cons e es)
  then show ?case
    by (auto split: sum.splits dest: epoch_body_best)
qed

subsection \<open>Runs that complete\<close>

lemma train_batches_ready:
  "a < length hp \<Longrightarrow> ready (hp ! a)
   \<Longrightarrow> \<exists>hp' os' s' hist'. train_batches lib a bs (hp, os, s, hist) = Inr (hp', os', s', hist')
         \<and> length hp' = length hp \<and> ready (hp' ! a)"
proof (induction bs arbitrary: hp os s hist)
  case Nil
  then show ?case by simp
next
  case (Cons b bs)
  obtain inputs targets where b: "b = (inputs, targets)" by (cases b)
  obtain y l where fw: "forward (hp ! a) inputs [] = Inr (Some y, l)"
    using forward_ready[OF Cons.prems(2)] by blast
  obtain os' g where bs: "backward_step lib os (hp ! a) inputs targets = (os', g)"
    by (cases "backward_step lib os (hp ! a) inputs targets")
  have len: "a < length (optimizer_write hp a g)"
    using Cons.prems(1) by (simp add: optimizer_write_def)
  have rdy: "ready (optimizer_write hp a g ! a)"
    using Cons.prems by (simp add: optimizer_write_def ready_def)
  obtain hp' os2 s2 hist2 where
    "train_batches lib a bs (optimizer_write hp a g, os', s + MSELoss lib y targets,
        hist @ [MSELoss lib y targets]) = Inr (hp', os2, s2, hist2)"
    "length hp' = length (optimizer_write hp a g)" "ready (hp' ! a)"
    using Cons.IH[OF len rdy] by blast
  then show ?case
    using b fw bs by (simp add: optimizer_write_def Let_def)
qed

lemma test_batches_ready:
  "ready m \<Longrightarrow> \<exists>s'. test_batches lib m bs s = Inr s'"
proof (induction bs arbitrary: s)
  case Nil
  then show ?case by simp
next
  case (Cons b bs)
  obtain inputs targets where b: "b = (inputs, targets)" by (cases b)
  obtain y l where fw: "forward m inputs [] = Inr (Some y, l)"
    using forward_ready[OF Cons.prems] by blast
  from Cons.IH[OF Cons.prems] show ?case using b fw by simp
qed

lemma epoch_body_ready:
  assumes "a < length (objects st)" "ready (objects st ! a)"
    "train_loader \<noteq> []" "test_loader \<noteq> []"
  shows "\<exists>st'. epoch_body lib a train_loader test_loader st = Inr st'
          \<and> a < length (objects st') \<and> ready (objects st' ! a)"
proof -
  obtain hp os s hist where
    tb: "train_batches lib a train_loader (objects st, optimizer_ODEnet st, 0, ode_loss_hist st)
           = Inr (hp, os, s, hist)"
    and len: "length hp = length (objects st)" and rdy: "ready (hp ! a)"
    using train_batches_ready[OF assms(1,2), of lib train_loader "optimizer_ODEnet st" 0
        "ode_loss_hist st"] by blast
  obtain ts where te: "test_batches lib (hp ! a) test_loader 0 = Inr ts"
    using test_batches_ready[OF rdy, of lib test_loader 0] by blast
  show ?thesis
    using tb te len rdy assms
    by (auto simp: epoch_body_def div_len_def Let_def deepcopy_def nth_append split: prod.splits)
qed

lemma train_epochs_ready:
  "a < length (objects st) \<Longrightarrow> ready (objects st ! a)
   \<Longrightarrow> train_loader \<noteq> [] \<Longrightarrow> test_loader \<noteq> []
   \<Longrightarrow> \<exists>st'. train_epochs lib a train_loader test_loader es st = Inr st'"
proof (induction es arbitrary: st)
  case Nil
  then show ?case by simp
next
  case (Cons e es)
  obtain st1 where e1: "epoch_body lib a train_loader test_loader st = Inr st1"
    and l1: "a < length (objects st1)" and r1: "ready (objects st1 ! a)"
    using epoch_body_ready[OF Cons.prems] by blast
  from Cons.IH[OF l1 r1 Cons.prems(3,4)] show ?case using e1 by simp
qed

subsection \<open>The returned checkpoint\<close>

text \<open>
  C1. The claim is that an epoch replaces the best checkpoint exactly when its average
  test loss is strictly below the minimum over the earlier epochs, so that a run of at
  least one epoch returns a checkpoint. The loop compares the average with the minimum
  of a history that already holds it, which is never strictly greater: every run of
  \<^verbatim>\<open>train\<close> that returns, returns \<^verbatim>\<open>None\<close> as \<^verbatim>\<open>ODEnet_best\<close>.
\<close>

theorem train_never_sets_best:
  assumes "train lib hp ODEnet train_loader test_loader lr wd method0 dt0
             = Inr (hp', a, best, lh, th)"
  shows "best = None"
proof -
  from assms obtain st where
    run: "train_epochs lib ODEnet train_loader test_loader [1 ..< NUMBER_EPOCHS + 1]
            \<lparr>objects = hp[ODEnet := (hp ! ODEnet)\<lparr>dt := Some dt0, method := method0\<rparr>],
             optimizer_ODEnet = LinearLR lib (Adam lib lr wd), ODEnet_best = None,
             ode_loss_hist = [], ode_loss_ave_hist = [], ode_test_loss_ave_hist = []\<rparr> = Inr st"
    and best: "best = ODEnet_best st"
    by (auto simp: train_def train_for_def Let_def split: sum.splits)
  from train_epochs_best[OF run] best show ?thesis by simp
qed

text \<open>
  The run of the small instance completes all its epochs and returns no checkpoint; its
  first two epochs have the average test losses \<open>9/100\<close> and \<open>1/25\<close>, each strictly
  below everything before it.
\<close>

theorem train_never_sets_best_witness:
  "(\<exists>hp' lh th. train demo_lib [demo_model] 0 [(1, 1/2)] [(1, 1/2)] (5/1000) 0 ''euler'' (1/10)
       = Inr (hp', 0, None, lh, th))
   \<and> map_sum id (\<lambda>(hp', a, best, lh, th). (a, best, lh, th))
        (train_for 2 demo_lib [demo_model] 0 [(1, 1/2)] [(1, 1/2)] (5/1000) 0 ''euler'' (1/10))
       = Inr (0, None, [4/25, 9/100], [9/100, 1/25])"
proof -
  let ?st0 = "\<lparr>objects = [demo_model][0 := (([demo_model] ! 0)\<lparr>dt := Some (1/10), method := ''euler''\<rparr>)],
             optimizer_ODEnet = LinearLR demo_lib (Adam demo_lib (5/1000) 0), ODEnet_best = None,
             ode_loss_hist = [], ode_loss_ave_hist = [], ode_test_loss_ave_hist = []\<rparr>"
  have "\<exists>st. train_epochs demo_lib 0 [(1, 1/2)] [(1, 1/2)] [1 ..< NUMBER_EPOCHS + 1] ?st0 = Inr st"
    by (rule train_epochs_ready) (simp_all add: ready_def)
  then obtain st where
    "train_epochs demo_lib 0 [(1, 1/2)] [(1, 1/2)] [1 ..< NUMBER_EPOCHS + 1] ?st0 = Inr st"
    by blast
  then have r: "train demo_lib [demo_model] 0 [(1, 1/2)] [(1, 1/2)] (5/1000) 0 ''euler'' (1/10)
      = Inr (objects st, 0, ODEnet_best st, ode_loss_hist st, ode_test_loss_ave_hist st)"
    by (simp add: train_def train_for_def Let_def)
  from train_never_sets_best[OF r] r
  have full: "\<exists>hp' lh th. train demo_lib [demo_model] 0 [(1, 1/2)] [(1, 1/2)] (5/1000) 0
      ''euler'' (1/10) = Inr (hp', 0, None, lh, th)"
    by simp
  have two: "map_sum id (\<lambda>(hp', a, best, lh, th). (a, best, lh, th))
        (train_for 2 demo_lib [demo_model] 0 [(1, 1/2)] [(1, 1/2)] (5/1000) 0 ''euler'' (1/10))
       = Inr (0, None, [4/25, 9/100], [9/100, 1/25])"
    by (simp add: train_for_def demo_lib_def demo_model_def epoch_body_def div_len_def
        forward_def euler_step_func_def call_def optimizer_write_def deepcopy_def Let_def upt_rec)
  from full two show ?thesis by blast
qed

section \<open>The snapshot\<close>

lemma train_batches_frame:
  "train_batches lib a bs (hp, os, s, hist) = Inr (hp', os', s', hist')
   \<Longrightarrow> length hp' = length hp \<and> (\<forall>b. b \<noteq> a \<longrightarrow> hp' ! b = hp ! b)"
proof (induction bs arbitrary: hp os s hist)
  case Nil
  then show ?case by simp
next
  case (Cons b bs)
  obtain inputs targets where b: "b = (inputs, targets)" by (cases b)
  from Cons.prems b obtain y l where fw: "forward (hp ! a) inputs [] = Inr (Some y, l)"
    by (auto split: sum.splits prod.splits option.splits)
  obtain os1 g where st: "backward_step lib os (hp ! a) inputs targets = (os1, g)"
    by (cases "backward_step lib os (hp ! a) inputs targets")
  have "train_batches lib a bs (optimizer_write hp a g, os1, s + MSELoss lib y targets,
          hist @ [MSELoss lib y targets]) = Inr (hp', os', s', hist')"
    using Cons.prems b fw st by (simp add: Let_def)
  from Cons.IH[OF this] show ?case
    by (simp add: optimizer_write_def)
qed

lemma epoch_body_frame:
  assumes "epoch_body lib a train_loader test_loader st = Inr st'"
  shows "length (objects st) \<le> length (objects st')
         \<and> (\<forall>b. b \<noteq> a \<longrightarrow> b < length (objects st) \<longrightarrow> objects st' ! b = objects st ! b)"
proof -
  from assms obtain hp os s hist where
    tb: "train_batches lib a train_loader (objects st, optimizer_ODEnet st, 0, ode_loss_hist st)
           = Inr (hp, os, s, hist)"
    by (auto simp: epoch_body_def split: sum.splits)
  have fr: "length hp = length (objects st)" "\<And>b. b \<noteq> a \<Longrightarrow> hp ! b = objects st ! b"
    using train_batches_frame[OF tb] by auto
  have "objects st' = hp \<or> objects st' = hp @ [hp ! a]"
    using assms tb
    by (auto simp: epoch_body_def Let_def deepcopy_def split: sum.splits prod.splits if_splits)
  then show ?thesis using fr by (auto simp: nth_append)
qed

lemma train_epochs_frame:
  "train_epochs lib a train_loader test_loader es st = Inr st'
   \<Longrightarrow> b \<noteq> a \<Longrightarrow> b < length (objects st) \<Longrightarrow> objects st' ! b = objects st ! b"
proof (induction es arbitrary: st)
  case Nil
  then show ?case by simp
next
  case (Cons e es)
  from Cons.prems(1) obtain st1 where
    e1: "epoch_body lib a train_loader test_loader st = Inr st1"
    and rest: "train_epochs lib a train_loader test_loader es st1 = Inr st'"
    by (auto split: sum.splits)
  have "objects st1 ! b = objects st ! b" "b < length (objects st1)"
    using epoch_body_frame[OF e1] Cons.prems(2,3) by auto
  with Cons.IH[OF rest Cons.prems(2)] show ?case by simp
qed

lemma optimizer_writes_frame:
  "b \<noteq> a \<Longrightarrow> foldl (\<lambda>h g. optimizer_write h a g) hp gs ! b = hp ! b"
  by (induction gs arbitrary: hp) (simp_all add: optimizer_write_def)

text \<open>
  C8. The snapshot \<^verbatim>\<open>copy.deepcopy(ODEnet)\<close> is an object of its own: it is not the live
  model, it holds the live model's fields as they are when it is taken, and it still
  holds them after any further epochs of the loop and after any sequence of optimizer
  writes to the live model.
\<close>

theorem deepcopy_snapshot_unchanged:
  assumes "a < length (objects st)"
    and "deepcopy (objects st) a = (b, hp1)"
    and "train_epochs lib a train_loader test_loader es
           (st\<lparr>objects := hp1, ODEnet_best := Some b\<rparr>) = Inr st'"
  shows "b \<noteq> a \<and> hp1 ! b = objects st ! a \<and> objects st' ! b = objects st ! a
         \<and> (\<forall>gs. foldl (\<lambda>h g. optimizer_write h a g) hp1 gs ! b = objects st ! a)"
proof -
  have b: "b = length (objects st)" and hp1: "hp1 = objects st @ [objects st ! a]"
    using assms(2) by (auto simp: deepcopy_def)
  have ne: "b \<noteq> a" using assms(1) b by simp
  have snap: "hp1 ! b = objects st ! a" using b hp1 by simp
  have "objects st' ! b = hp1 ! b"
    using train_epochs_frame[OF assms(3) ne] b hp1 by simp
  moreover have "\<forall>gs. foldl (\<lambda>h g. optimizer_write h a g) hp1 gs ! b = hp1 ! b"
    using optimizer_writes_frame[OF ne] by blast
  ultimately show ?thesis using ne snap by simp
qed

text \<open>
  Two further epochs of the small instance after a snapshot at address \<open>1\<close>: the live
  network now maps \<open>1\<close> to \<open>- 3\<close>, the snapshot still maps it to \<open>- 1\<close>.
\<close>

theorem deepcopy_snapshot_unchanged_witness:
  "\<exists>st'. train_epochs demo_lib 0 [(1, 1/2)] [(1, 1/2)] [1, 2]
            \<lparr>objects = [demo_model\<lparr>dt := Some (1/10)\<rparr>, demo_model\<lparr>dt := Some (1/10)\<rparr>],
             optimizer_ODEnet = (), ODEnet_best = Some 1, ode_loss_hist = [],
             ode_loss_ave_hist = [], ode_test_loss_ave_hist = []\<rparr> = Inr st'
         \<and> objects st' ! 1 = demo_model\<lparr>dt := Some (1/10)\<rparr>
         \<and> net (objects st' ! 1) 1 = - 1
         \<and> net (objects st' ! 0) 1 = - 3"
proof -
  let ?m = "demo_model\<lparr>dt := Some (1/10)\<rparr>"
  let ?st = "\<lparr>objects = [?m], optimizer_ODEnet = (), ODEnet_best = None, ode_loss_hist = [],
             ode_loss_ave_hist = [], ode_test_loss_ave_hist = ([]::real list)\<rparr>"
  let ?st1 = "\<lparr>objects = [?m, ?m], optimizer_ODEnet = (), ODEnet_best = Some 1,
             ode_loss_hist = [], ode_loss_ave_hist = [],
             ode_test_loss_ave_hist = ([]::real list)\<rparr>"
  have run: "\<exists>st'. train_epochs demo_lib 0 [(1, 1/2)] [(1, 1/2)] [1, 2] ?st1 = Inr st'
              \<and> net (objects st' ! 0) 1 = - 3"
    by (simp add: demo_lib_def demo_model_def epoch_body_def div_len_def
        forward_def euler_step_func_def call_def optimizer_write_def deepcopy_def Let_def)
  then obtain st' where
    st': "train_epochs demo_lib 0 [(1, 1/2)] [(1, 1/2)] [1, 2] ?st1 = Inr st'"
    and live: "net (objects st' ! 0) 1 = - 3"
    by blast
  have a: "0 < length (objects ?st)" by simp
  have c: "deepcopy (objects ?st) 0 = (1, [?m, ?m])" by (simp add: deepcopy_def)
  have s: "?st\<lparr>objects := [?m, ?m], ODEnet_best := Some 1\<rparr> = ?st1" by simp
  have "objects st' ! 1 = objects ?st ! 0"
    using deepcopy_snapshot_unchanged
      [OF a c, of demo_lib "[(1, 1/2)]" "[(1, 1/2)]" "[1, 2]" st'] st' s
    by simp
  then have "objects st' ! 1 = ?m" by simp
  moreover from this have "net (objects st' ! 1) 1 = - 1" by (simp add: demo_model_def)
  ultimately show ?thesis using st' live by blast
qed

section \<open>The frozen subset\<close>

lemma collect_batches_take:
  "collect_batches loader k n (si, sl) =
     (si @ map fst (take (nat (n - k)) loader), sl @ map snd (take (nat (n - k)) loader))"
proof (induction loader arbitrary: k si sl)
  case Nil
  show ?case by simp
next
  case (Cons b loader)
  obtain images labels where b: "b = (images, labels)" by (cases b)
  show ?case
  proof (cases "k \<ge> n")
    case True
    then show ?thesis using b by simp
  next
    case False
    then have "nat (n - k) = Suc (nat (n - (k + 1)))" by simp
    then show ?thesis
      using False b Cons.IH[of "k + 1" "si @ [images]" "sl @ [labels]"] by simp
  qed
qed

lemma frozen_subset_nothing_collected:
  assumes "train_data_loader = [] \<or> num_batches \<le> 0"
  shows "frozen_subset train_data_loader num_batches = Inl RuntimeError"
  using assms by (auto simp: frozen_subset_def collect_batches_take torch_cat_def)

text \<open>
  C9, as amended. When the source yields at least one batch and at least one batch is
  requested, the construction returns the concatenation of the first \<^verbatim>\<open>num_batches\<close>
  batches of the source, which are all its batches when it yields fewer than requested;
  no error is raised for the shortfall.
\<close>

theorem frozen_subset_first_batches:
  assumes "train_data_loader \<noteq> []" and "1 \<le> num_batches"
  shows "frozen_subset train_data_loader num_batches =
           Inr (concat (map fst (take (nat num_batches) train_data_loader)),
                concat (map snd (take (nat num_batches) train_data_loader)))
       \<and> (int (length train_data_loader) < num_batches \<longrightarrow>
            frozen_subset train_data_loader num_batches =
              Inr (concat (map fst train_data_loader), concat (map snd train_data_loader)))"
proof -
  have "take (nat num_batches) train_data_loader \<noteq> []"
    using assms by (cases train_data_loader) (auto simp: take_Cons split: nat.splits)
  then have main: "frozen_subset train_data_loader num_batches =
           Inr (concat (map fst (take (nat num_batches) train_data_loader)),
                concat (map snd (take (nat num_batches) train_data_loader)))"
    by (simp add: frozen_subset_def collect_batches_take torch_cat_def)
  moreover have "int (length train_data_loader) < num_batches \<longrightarrow>
      take (nat num_batches) train_data_loader = train_data_loader"
    by auto
  ultimately show ?thesis by auto
qed

theorem frozen_subset_first_batches_witness:
  "frozen_subset [([1, 2], [3, 4]), ([5], [6::real])] 5 = Inr ([1, 2, 5::real], [3, 4, 6])
   \<and> frozen_subset [([1, 2], [3, 4]), ([5], [6::real])] 1 = Inr ([1, 2::real], [3, 4])"
  using frozen_subset_first_batches[of "[([1, 2], [3, 4]), ([5], [6::real])]" 5]
    frozen_subset_first_batches[of "[([1::real, 2], [3, 4]), ([5], [6::real])]" 1]
  by simp

text \<open>
  A source that yields no batch yields fewer than the one requested, and the
  construction raises.
\<close>

theorem frozen_subset_empty_source_counterexample:
  "int (length ([] :: (real list \<times> real list) list)) < 1
   \<and> frozen_subset ([] :: (real list \<times> real list) list) 1 = Inl RuntimeError"
  by (simp add: frozen_subset_def torch_cat_def)

section \<open>The Hessian-vector product\<close>

subsection \<open>Derivatives of graphs\<close>

text \<open>
  The derivative with respect to an entry that a graph does not reach is a constant of
  value zero, so the product and chain rules hold for the values of \<open>partial\<close> whether
  or not an operand reaches the entry; \<open>partial\<close> is the derivative, and second
  derivatives commute.
\<close>

lemma partial_unreached_closed:
  "\<not> occurs i e \<Longrightarrow> \<not> occurs k (partial i e)"
  by (induction e) auto

lemma eval_partial_unreached:
  "\<not> occurs i e \<Longrightarrow> eval \<theta> (partial i e) = 0"
  by (induction e) auto

lemma eval_unreached:
  "\<not> occurs i e \<Longrightarrow> eval (\<theta>(i := t)) e = eval \<theta> e"
  by (induction e) auto

lemma eval_partial_Mul:
  "eval \<theta> (partial i (Mul a b))
     = eval \<theta> (partial i a) * eval \<theta> b + eval \<theta> a * eval \<theta> (partial i b)"
  by (simp add: eval_partial_unreached)

lemma eval_partial_Tanh:
  "eval \<theta> (partial i (Tanh a))
     = (1 - tanh (eval \<theta> a) * tanh (eval \<theta> a)) * eval \<theta> (partial i a)"
  by (simp add: eval_partial_unreached)

lemma eval_second_unreached:
  "\<not> occurs j e \<Longrightarrow> eval \<theta> (partial i (partial j e)) = 0"
  by (rule eval_partial_unreached) (rule partial_unreached_closed)

lemma eval_second_branch:
  "eval \<theta> (partial i (if occurs j a then Mul (partial j a) b else Const 0))
     = eval \<theta> (partial i (partial j a)) * eval \<theta> b
       + eval \<theta> (partial j a) * eval \<theta> (partial i b)"
proof (cases "occurs j a")
  case True
  then show ?thesis by (simp only: if_True eval_partial_Mul)
next
  case False
  have "eval \<theta> (partial i (Const 0)) = 0" by simp
  moreover have "eval \<theta> (partial i (partial j a)) = 0" "eval \<theta> (partial j a) = 0"
    using False by (rule eval_second_unreached, rule eval_partial_unreached)
  ultimately show ?thesis using False by simp
qed

lemma eval_second_branch_right:
  "eval \<theta> (partial i (if occurs j b then Mul a (partial j b) else Const 0))
     = eval \<theta> (partial i a) * eval \<theta> (partial j b)
       + eval \<theta> a * eval \<theta> (partial i (partial j b))"
proof (cases "occurs j b")
  case True
  then show ?thesis by (simp only: if_True eval_partial_Mul)
next
  case False
  have "eval \<theta> (partial i (Const 0)) = 0" by simp
  moreover have "eval \<theta> (partial i (partial j b)) = 0" "eval \<theta> (partial j b) = 0"
    using False by (rule eval_second_unreached, rule eval_partial_unreached)
  ultimately show ?thesis using False by simp
qed

lemma eval_second_Mul:
  "eval \<theta> (partial i (partial j (Mul a b)))
     = eval \<theta> (partial i (partial j a)) * eval \<theta> b
     + eval \<theta> (partial j a) * eval \<theta> (partial i b)
     + (eval \<theta> (partial i a) * eval \<theta> (partial j b)
        + eval \<theta> a * eval \<theta> (partial i (partial j b)))"
  by (simp only: partial.simps(3,4) eval.simps(3) eval_second_branch eval_second_branch_right)

lemma eval_second_Tanh:
  "eval \<theta> (partial i (partial j (Tanh a)))
     = - (2 * tanh (eval \<theta> a) * (1 - tanh (eval \<theta> a) * tanh (eval \<theta> a)))
         * eval \<theta> (partial i a) * eval \<theta> (partial j a)
       + (1 - tanh (eval \<theta> a) * tanh (eval \<theta> a)) * eval \<theta> (partial i (partial j a))"
proof (cases "occurs j a")
  case False
  have "eval \<theta> (partial i (partial j (Tanh a))) = 0"
    by (rule eval_second_unreached) (simp add: False)
  moreover have "eval \<theta> (partial i (partial j a)) = 0" "eval \<theta> (partial j a) = 0"
    using False by (rule eval_second_unreached, rule eval_partial_unreached)
  ultimately show ?thesis using False by simp
next
  case True
  let ?D = "Add (Const 1) (Mul (Const (- 1)) (Mul (Tanh a) (Tanh a)))"
  have T: "eval \<theta> (partial i (Mul (Tanh a) (Tanh a)))
        = 2 * tanh (eval \<theta> a) * (1 - tanh (eval \<theta> a) * tanh (eval \<theta> a))
            * eval \<theta> (partial i a)"
    by (simp only: eval_partial_Mul eval_partial_Tanh eval.simps) (simp add: algebra_simps)
  have C: "eval \<theta> (partial i (Mul (Const (- 1)) (Mul (Tanh a) (Tanh a))))
        = - eval \<theta> (partial i (Mul (Tanh a) (Tanh a)))"
    by (simp only: eval_partial_Mul partial.simps(1) eval.simps) simp
  have D: "eval \<theta> (partial i ?D)
        = - (2 * tanh (eval \<theta> a) * (1 - tanh (eval \<theta> a) * tanh (eval \<theta> a)))
            * eval \<theta> (partial i a)"
    by (simp only: partial.simps(1,3) eval.simps(1,3) C T add_0_left, (simp add: algebra_simps)?)
  have V: "eval \<theta> ?D = 1 - tanh (eval \<theta> a) * tanh (eval \<theta> a)"
    by simp
  have "partial j (Tanh a) = Mul ?D (partial j a)"
    using True by (simp only: partial.simps(5) if_True)
  then have "eval \<theta> (partial i (partial j (Tanh a)))
               = eval \<theta> (partial i (Mul ?D (partial j a)))"
    by (simp only:)
  also have "\<dots> = eval \<theta> (partial i ?D) * eval \<theta> (partial j a)
                  + eval \<theta> ?D * eval \<theta> (partial i (partial j a))"
    by (rule eval_partial_Mul)
  finally show ?thesis by (simp only: D V, (simp add: algebra_simps)?)
qed

lemma partial_commute:
  "eval \<theta> (partial i (partial j e)) = eval \<theta> (partial j (partial i e))"
proof (induction e)
  case (Const c)
  show ?case by simp
next
  case (Param k)
  show ?case by simp
next
  case (Add a b)
  then show ?case by simp
next
  case (Mul a b)
  show ?case
    unfolding eval_second_Mul[of \<theta> i j] eval_second_Mul[of \<theta> j i] Mul.IH
    by (simp add: algebra_simps)
next
  case (Tanh a)
  show ?case
    unfolding eval_second_Tanh[of \<theta> i j] eval_second_Tanh[of \<theta> j i] Tanh.IH
    by (simp add: algebra_simps)
qed

lemma partial_sound:
  "((\<lambda>t. eval (\<theta>(i := t)) e) has_real_derivative eval (\<theta>(i := t)) (partial i e)) (at t)"
proof (induction e)
  case (Const c)
  show ?case by simp
next
  case (Param j)
  show ?case by (cases "i = j") simp_all
next
  case (Add a b)
  then show ?case by (auto intro!: derivative_eq_intros)
next
  case (Mul a b)
  have "((\<lambda>t. eval (\<theta>(i := t)) a * eval (\<theta>(i := t)) b) has_real_derivative
          eval (\<theta>(i := t)) (partial i a) * eval (\<theta>(i := t)) b
          + eval (\<theta>(i := t)) (partial i b) * eval (\<theta>(i := t)) a) (at t)"
    by (rule DERIV_mult[OF Mul.IH])
  then show ?case by (simp only: eval_partial_Mul eval.simps mult_ac)
next
  case (Tanh a)
  have "((\<lambda>t. tanh (eval (\<theta>(i := t)) a)) has_real_derivative
          (1 - (tanh (eval (\<theta>(i := t)) a))\<^sup>2) * eval (\<theta>(i := t)) (partial i a)) (at t)"
    by (rule has_field_derivative_tanh[OF _ Tanh.IH]) simp
  then show ?case by (simp only: eval_partial_Tanh eval.simps power2_eq_square)
qed

lemma eval_partial_torch_sum:
  "eval \<theta> (partial i (torch_sum es)) = sum_list (map (\<lambda>e. eval \<theta> (partial i e)) es)"
  by (induction es) (simp_all add: torch_sum_def)

lemma eval_partial_products:
  "sum_list (map (\<lambda>e. eval \<theta> (partial i e))
               (map2 (\<lambda>g c. Mul g (Const c)) (map (\<lambda>j. partial j L) ps) v))
   = sum_list (map2 (\<lambda>j c. eval \<theta> (partial i (partial j L)) * c) ps v)"
proof (induction ps arbitrary: v)
  case Nil
  show ?case by simp
next
  case (Cons p ps)
  show ?case
  proof (cases v)
    case Nil
    then show ?thesis by simp
  next
    case (Cons c cs)
    have "eval \<theta> (partial i (Mul (partial p L) (Const c)))
            = eval \<theta> (partial i (partial p L)) * c"
      by (simp only: eval_partial_Mul) simp
    with Cons Cons.IH[of cs] show ?thesis by (simp del: partial.simps)
  qed
qed

subsection \<open>The product in closed form\<close>

text \<open>
  For a vector as long as the flattened selection, the product either raises (no
  parameter selected, or a selected tensor out of reach of the loss or of the graph of
  \<open>g \<cdot> v\<close>) or returns the Hessian of the loss applied to the vector, and the store of
  \<^verbatim>\<open>.grad\<close> fields with those of the module's parameters cleared.
\<close>

lemma sum_list_map2_nth:
  fixes f :: "'a \<Rightarrow> 'b \<Rightarrow> real"
  assumes "length xs = length ys"
  shows "sum_list (map2 f xs ys) = (\<Sum>i<length xs. f (xs ! i) (ys ! i))"
proof -
  have "sum_list (map2 f xs ys) = (\<Sum>i = 0..<length xs. map2 f xs ys ! i)"
    using assms by (simp add: sum_list_sum_nth)
  also have "\<dots> = (\<Sum>i = 0..<length xs. f (xs ! i) (ys ! i))"
    using assms by (intro sum.cong) simp_all
  finally show ?thesis by (simp add: atLeast0LessThan)
qed

lemma hvp_no_selection:
  assumes "param_extract_fn model = []"
  shows "hessian_vector_product compute_loss_fn param_extract_fn model images labels grads v
           = Inl ValueError"
  using assms by (simp add: hessian_vector_product_def autograd_grad_def)

lemma hvp_unfolded:
  assumes len: "length v = length (concat (param_extract_fn model))"
  shows "hessian_vector_product compute_loss_fn param_extract_fn model images labels grads v =
     (if param_extract_fn model = [] then Inl ValueError
      else if \<not> list_all (reached (compute_loss_fn model images labels))
                  (param_extract_fn model) then Inl RuntimeError
      else if \<not> list_all
                  (reached (dot_graph
                     (map (\<lambda>j. partial j (compute_loss_fn model images labels))
                        (concat (param_extract_fn model))) v))
                  (param_extract_fn model) then Inl RuntimeError
      else Inr (map (\<lambda>i. sum_list (map2 (\<lambda>j c.
                            eval (theta model)
                              (partial i (partial j (compute_loss_fn model images labels))) * c)
                          (concat (param_extract_fn model)) v))
                  (concat (param_extract_fn model)),
                zero_grad model grads))"
proof -
  let ?L = "compute_loss_fn model images labels"
  let ?ps = "concat (param_extract_fn model)"
  have cat: "\<And>f::nat \<Rightarrow> expr. concat (map (map f) (param_extract_fn model)) = map f ?ps"
    by (simp add: map_concat)
  have ev: "\<And>i. eval (theta model) (partial i (torch_sum
               (map2 (\<lambda>g c. Mul g (Const c)) (map (\<lambda>j. partial j ?L) ?ps) v)))
             = sum_list (map2 (\<lambda>j c. eval (theta model) (partial i (partial j ?L)) * c) ?ps v)"
    by (simp only: eval_partial_torch_sum eval_partial_products)
  have tm: "tensor_mul (map (\<lambda>j. partial j ?L) ?ps) v
              = Inr (map2 (\<lambda>g c. Mul g (Const c)) (map (\<lambda>j. partial j ?L) ?ps) v)"
    using len by (simp add: tensor_mul_def)
  show ?thesis
    by (simp add: hessian_vector_product_def autograd_grad_def torch_cat_def dot_graph_def
        Let_def cat tm ev comp_def del: partial.simps)
qed

lemma hvp_result:
  assumes len: "length v = length (concat (param_extract_fn model))"
    and res: "hessian_vector_product compute_loss_fn param_extract_fn model images labels grads v
                = Inr (r, grads')"
  shows "r = map (\<lambda>i. sum_list (map2 (\<lambda>j c.
                            eval (theta model)
                              (partial i (partial j (compute_loss_fn model images labels))) * c)
                          (concat (param_extract_fn model)) v))
                  (concat (param_extract_fn model))
         \<and> grads' = zero_grad model grads"
  using res unfolding hvp_unfolded[where param_extract_fn = param_extract_fn and model = model,
      OF len]
  by (simp split: if_splits)

lemma hvp_nth:
  assumes len: "length v = length (concat (param_extract_fn model))"
    and res: "hessian_vector_product compute_loss_fn param_extract_fn model images labels grads v
                = Inr (r, grads')"
    and i: "i < length (concat (param_extract_fn model))"
  shows "r ! i = (\<Sum>j<length (concat (param_extract_fn model)).
                    eval (theta model)
                      (partial (concat (param_extract_fn model) ! i)
                         (partial (concat (param_extract_fn model) ! j)
                            (compute_loss_fn model images labels))) * v ! j)"
proof -
  let ?ps = "concat (param_extract_fn model)"
  let ?H = "\<lambda>i j. eval (theta model)
              (partial i (partial j (compute_loss_fn model images labels)))"
  have "r = map (\<lambda>i. sum_list (map2 (\<lambda>j c. ?H i j * c) ?ps v)) ?ps"
    using hvp_result[where param_extract_fn = param_extract_fn and model = model, OF len res]
    by simp
  then have "r ! i = sum_list (map2 (\<lambda>j c. ?H (?ps ! i) j * c) ?ps v)"
    using i by simp
  also have "\<dots> = (\<Sum>j<length ?ps. ?H (?ps ! i) (?ps ! j) * v ! j)"
    using len by (simp add: sum_list_map2_nth)
  finally show ?thesis .
qed

lemma dot_hvp:
  assumes lu: "length u = length (concat (param_extract_fn model))"
    and lv: "length v = length (concat (param_extract_fn model))"
    and res: "hessian_vector_product compute_loss_fn param_extract_fn model images labels grads v
                = Inr (r, grads')"
  shows "dot u r = (\<Sum>i<length (concat (param_extract_fn model)).
                     \<Sum>j<length (concat (param_extract_fn model)).
                       u ! i * (eval (theta model)
                         (partial (concat (param_extract_fn model) ! i)
                            (partial (concat (param_extract_fn model) ! j)
                               (compute_loss_fn model images labels))) * v ! j))"
proof -
  let ?ps = "concat (param_extract_fn model)"
  have lr: "length r = length ?ps"
    using hvp_result[where param_extract_fn = param_extract_fn and model = model, OF lv res]
    by simp
  have "dot u r = (\<Sum>i<length ?ps. u ! i * r ! i)"
    using lu lr by (simp add: dot_def sum_list_map2_nth)
  also have "\<dots> = (\<Sum>i<length ?ps. u ! i * (\<Sum>j<length ?ps.
                       eval (theta model)
                         (partial (?ps ! i) (partial (?ps ! j)
                            (compute_loss_fn model images labels))) * v ! j))"
    by (intro sum.cong refl) (simp add: hvp_nth[OF lv res])
  finally show ?thesis by (simp add: sum_distrib_left)
qed

lemmas hvp_unfold = hessian_vector_product_def autograd_grad_def reached_def torch_cat_def
  tensor_mul_def torch_sum_def Let_def

lemma double_backprop_unfolded:
  "double_backprop (compute_loss_fn model images labels) (param_extract_fn model) (theta model) v =
     (if param_extract_fn model = [] then Inl ValueError
      else if \<not> list_all (reached (compute_loss_fn model images labels))
                  (param_extract_fn model) then Inl RuntimeError
      else if \<not> list_all
                  (reached (dot_graph
                     (map (\<lambda>j. partial j (compute_loss_fn model images labels))
                        (concat (param_extract_fn model))) v))
                  (param_extract_fn model) then Inl RuntimeError
      else Inr (map (\<lambda>i. sum_list (map2 (\<lambda>j c.
                            eval (theta model)
                              (partial i (partial j (compute_loss_fn model images labels))) * c)
                          (concat (param_extract_fn model)) v))
                  (concat (param_extract_fn model))))"
proof -
  let ?L = "compute_loss_fn model images labels"
  let ?ps = "concat (param_extract_fn model)"
  have cat: "\<And>f::nat \<Rightarrow> expr. concat (map (map f) (param_extract_fn model)) = map f ?ps"
    by (simp add: map_concat)
  have ev: "\<And>i. eval (theta model) (partial i (dot_graph (map (\<lambda>j. partial j ?L) ?ps) v))
             = sum_list (map2 (\<lambda>j c. eval (theta model) (partial i (partial j ?L)) * c) ?ps v)"
    by (simp only: dot_graph_def eval_partial_torch_sum eval_partial_products)
  show ?thesis
    by (simp add: double_backprop_def autograd_grad_def Let_def cat ev comp_def
        del: partial.simps)
qed

subsection \<open>The product is the double backpropagation\<close>

text \<open>
  C5, as amended. For a vector of length \<^verbatim>\<open>num_params\<close> the product does what the
  definition by double backpropagation does: it raises where the definition raises and
  otherwise returns the value the definition returns, the gradient of \<open>s = g \<cdot> v\<close>
  flattened in the order of the selection. A returned value has the length
  \<^verbatim>\<open>num_params\<close>, and the call leaves the \<^verbatim>\<open>.grad\<close> field of every parameter of the
  module cleared and every other \<^verbatim>\<open>.grad\<close> field as it was. The call returns when at least
  one parameter tensor is selected and the graph of the loss and the graph of \<open>s\<close> each
  reach every selected tensor.
\<close>

theorem hessian_vector_product_double_backprop:
  assumes len: "length vector = sum_list (map length (param_extract_fn model))"
  shows "map_sum id fst
           (hessian_vector_product compute_loss_fn param_extract_fn model images labels
              grads vector)
         = double_backprop (compute_loss_fn model images labels) (param_extract_fn model)
             (theta model) vector
       \<and> (\<forall>hv grads'.
            hessian_vector_product compute_loss_fn param_extract_fn model images labels
              grads vector = Inr (hv, grads') \<longrightarrow>
            length hv = length vector \<and> grads' = zero_grad model grads
            \<and> (\<forall>i \<in> set (concat (parameters model)). grads' i = None))
       \<and> (param_extract_fn model \<noteq> []
            \<and> list_all (reached (compute_loss_fn model images labels)) (param_extract_fn model)
            \<and> list_all
                (reached (dot_graph
                   (map (\<lambda>j. partial j (compute_loss_fn model images labels))
                      (concat (param_extract_fn model))) vector))
                (param_extract_fn model) \<longrightarrow>
            (\<exists>hv grads'.
               hessian_vector_product compute_loss_fn param_extract_fn model images labels
                 grads vector = Inr (hv, grads')))"
proof -
  have n: "length vector = length (concat (param_extract_fn model))"
    using len by (simp add: length_concat)
  note u = hvp_unfolded[where param_extract_fn = param_extract_fn and model = model, OF n,
      of compute_loss_fn images labels grads]
  have eq: "map_sum id fst
           (hessian_vector_product compute_loss_fn param_extract_fn model images labels
              grads vector)
         = double_backprop (compute_loss_fn model images labels) (param_extract_fn model)
             (theta model) vector"
    unfolding u double_backprop_unfolded by simp
  have ret: "\<forall>hv grads'.
            hessian_vector_product compute_loss_fn param_extract_fn model images labels
              grads vector = Inr (hv, grads') \<longrightarrow>
            length hv = length vector \<and> grads' = zero_grad model grads
            \<and> (\<forall>i \<in> set (concat (parameters model)). grads' i = None)"
  proof (intro allI impI)
    fix hv grads'
    assume r: "hessian_vector_product compute_loss_fn param_extract_fn model images labels
              grads vector = Inr (hv, grads')"
    from hvp_result[where param_extract_fn = param_extract_fn and model = model, OF n r]
    have "length hv = length vector" and g: "grads' = zero_grad model grads"
      using n by simp_all
    moreover have "\<forall>i \<in> set (concat (parameters model)). grads' i = None"
      unfolding g by (simp add: zero_grad_def)
    ultimately show "length hv = length vector \<and> grads' = zero_grad model grads
            \<and> (\<forall>i \<in> set (concat (parameters model)). grads' i = None)"
      by blast
  qed
  have ok: "param_extract_fn model \<noteq> []
            \<and> list_all (reached (compute_loss_fn model images labels)) (param_extract_fn model)
            \<and> list_all
                (reached (dot_graph
                   (map (\<lambda>j. partial j (compute_loss_fn model images labels))
                      (concat (param_extract_fn model))) vector))
                (param_extract_fn model) \<longrightarrow>
            (\<exists>hv grads'.
               hessian_vector_product compute_loss_fn param_extract_fn model images labels
                 grads vector = Inr (hv, grads'))"
    unfolding u by simp
  from eq ret ok show ?thesis by blast
qed

text \<open>
  At \<open>\<theta> = (1, 2)\<close> and \<open>v = (1, 0)\<close> both give \<open>(4, 2)\<close>, the first column of the Hessian;
  the stale \<^verbatim>\<open>.grad\<close> fields of the module's two parameters are cleared, a field outside
  the module is left alone.
\<close>

theorem hessian_vector_product_double_backprop_witness:
  "map_sum id fst
     (hessian_vector_product demo_loss parameters demo_module [] [] stale_grads [1, 0])
     = double_backprop (demo_loss demo_module [] []) (parameters demo_module)
         (theta demo_module) [1, 0]
   \<and> double_backprop (demo_loss demo_module [] []) (parameters demo_module)
         (theta demo_module) [1, 0] = Inr [4, 2]
   \<and> (\<exists>hv grads'.
         hessian_vector_product demo_loss parameters demo_module [] [] stale_grads [1, 0]
           = Inr (hv, grads')
       \<and> length hv = 2 \<and> grads' 0 = None \<and> grads' 1 = None \<and> grads' 2 = Some 7)"
proof -
  have l: "length [1, 0 :: real] = sum_list (map length (parameters demo_module))"
    by (simp add: demo_module_def)
  have v: "double_backprop (demo_loss demo_module [] []) (parameters demo_module)
         (theta demo_module) [1, 0] = Inr [4, 2]"
    by (simp add: double_backprop_def dot_graph_def demo_loss_def demo_module_def
        autograd_grad_def reached_def torch_sum_def Let_def)
  have r: "hessian_vector_product demo_loss parameters demo_module [] [] stale_grads [1, 0]
           = Inr ([4, 2], zero_grad demo_module stale_grads)"
    by (simp add: hvp_unfold demo_loss_def demo_module_def)
  have g: "zero_grad demo_module stale_grads 2 = Some 7"
    by (simp add: zero_grad_def demo_module_def stale_grads_def)
  have m0: "0 \<in> set (concat (parameters demo_module))"
    and m1: "1 \<in> set (concat (parameters demo_module))"
    by (simp_all add: demo_module_def)
  note t = hessian_vector_product_double_backprop
    [where param_extract_fn = parameters and model = demo_module, OF l,
      of demo_loss "[]" "[]" stale_grads]
  from t have eq: "map_sum id fst
     (hessian_vector_product demo_loss parameters demo_module [] [] stale_grads [1, 0])
     = double_backprop (demo_loss demo_module [] []) (parameters demo_module)
         (theta demo_module) [1, 0]"
    by (rule conjunct1)
  from t r have z: "\<forall>i \<in> set (concat (parameters demo_module)).
      zero_grad demo_module stale_grads i = None"
    by blast
  from z m0 have g0: "zero_grad demo_module stale_grads 0 = None" by (rule bspec)
  from z m1 have g1: "zero_grad demo_module stale_grads 1 = None" by (rule bspec)
  show ?thesis
  proof (intro conjI)
    show "map_sum id fst
       (hessian_vector_product demo_loss parameters demo_module [] [] stale_grads [1, 0])
       = double_backprop (demo_loss demo_module [] []) (parameters demo_module)
           (theta demo_module) [1, 0]"
      by (rule eq)
    show "double_backprop (demo_loss demo_module [] []) (parameters demo_module)
           (theta demo_module) [1, 0] = Inr [4, 2]"
      by (rule v)
    show "\<exists>hv grads'.
           hessian_vector_product demo_loss parameters demo_module [] [] stale_grads [1, 0]
             = Inr (hv, grads')
         \<and> length hv = 2 \<and> grads' 0 = None \<and> grads' 1 = None \<and> grads' 2 = Some 7"
      using r g0 g1 g
      by (intro exI[of _ "[4, 2]"] exI[of _ "zero_grad demo_module stale_grads"]) simp
  qed
qed

text \<open>
  Two vectors of length \<^verbatim>\<open>num_params\<close>. For the loss \<open>\<theta>\<^sub>0 * \<theta>\<^sub>0 + \<theta>\<^sub>1\<close> the gradient
  with respect to \<open>\<theta>\<^sub>1\<close> is a constant, the graph of \<open>g \<cdot> v\<close> does not reach \<open>\<theta>\<^sub>1\<close>, and
  the product raises instead of returning a gradient. For a selection that adds a
  parameter the module does not own, the product returns and the stale \<^verbatim>\<open>.grad\<close> field
  of that selected parameter is still there.
\<close>

theorem hessian_vector_product_double_backprop_counterexample:
  "length [1, 1 :: real] = sum_list (map length (parameters demo_module))
   \<and> hessian_vector_product linear_loss parameters demo_module [] [] no_grads [1, 1]
       = Inl RuntimeError
   \<and> length [1, 0, 0 :: real] = sum_list (map length (wider_selection demo_module))
   \<and> hessian_vector_product wider_loss wider_selection demo_module [] [] stale_grads [1, 0, 0]
       = Inr ([4, 2, 0], zero_grad demo_module stale_grads)
   \<and> 2 \<in> set (concat (wider_selection demo_module))
   \<and> zero_grad demo_module stale_grads 2 = Some 7"
  by (simp add: hvp_unfold linear_loss_def wider_loss_def wider_selection_def demo_module_def
      zero_grad_def stale_grads_def)

subsection \<open>Symmetry\<close>

text \<open>
  C6. For a fixed model and a fixed subset the operator is symmetric: for vectors \<open>v1\<close>
  and \<open>v2\<close> of length \<^verbatim>\<open>num_params\<close> on which the product returns,
  \<open>v1 \<cdot> apply v2 = v2 \<cdot> apply v1\<close> (in real arithmetic, where the equality is exact).
\<close>

theorem hessian_vector_product_symmetric:
  assumes l1: "length v1 = sum_list (map length (param_extract_fn model))"
    and l2: "length v2 = sum_list (map length (param_extract_fn model))"
    and r1: "hessian_vector_product compute_loss_fn param_extract_fn model images labels
               grads1 v1 = Inr (hv1, grads1')"
    and r2: "hessian_vector_product compute_loss_fn param_extract_fn model images labels
               grads2 v2 = Inr (hv2, grads2')"
  shows "dot v1 hv2 = dot v2 hv1"
proof -
  let ?ps = "concat (param_extract_fn model)"
  let ?H = "\<lambda>i j. eval (theta model)
              (partial (?ps ! i) (partial (?ps ! j) (compute_loss_fn model images labels)))"
  have n1: "length v1 = length ?ps" and n2: "length v2 = length ?ps"
    using l1 l2 by (simp_all add: length_concat)
  have "dot v1 hv2 = (\<Sum>i<length ?ps. \<Sum>j<length ?ps. v1 ! i * (?H i j * v2 ! j))"
    by (rule dot_hvp[OF n1 n2 r2])
  also have "\<dots> = (\<Sum>j<length ?ps. \<Sum>i<length ?ps. v1 ! i * (?H i j * v2 ! j))"
    by (rule sum.swap)
  also have "\<dots> = (\<Sum>j<length ?ps. \<Sum>i<length ?ps. v2 ! j * (?H j i * v1 ! i))"
    by (intro sum.cong refl) (simp add: partial_commute mult_ac)
  also have "\<dots> = dot v2 hv1"
    by (rule dot_hvp[OF n2 n1 r1, symmetric])
  finally show ?thesis .
qed

theorem hessian_vector_product_symmetric_witness:
  "\<exists>hv1 hv2 g1 g2.
      hessian_vector_product demo_loss parameters demo_module [] [] no_grads [1, 0]
        = Inr (hv1, g1)
    \<and> hessian_vector_product demo_loss parameters demo_module [] [] no_grads [0, 1]
        = Inr (hv2, g2)
    \<and> hv1 = [4, 2] \<and> hv2 = [2, 2]
    \<and> dot [1, 0] hv2 = dot [0, 1] hv1"
proof -
  have r1: "hessian_vector_product demo_loss parameters demo_module [] [] no_grads [1, 0]
        = Inr ([4, 2], zero_grad demo_module no_grads)"
    by (simp add: hvp_unfold demo_loss_def demo_module_def)
  have r2: "hessian_vector_product demo_loss parameters demo_module [] [] no_grads [0, 1]
        = Inr ([2, 2], zero_grad demo_module no_grads)"
    by (simp add: hvp_unfold demo_loss_def demo_module_def)
  have l1: "length [1, 0 :: real] = sum_list (map length (parameters demo_module))"
    and l2: "length [0, 1 :: real] = sum_list (map length (parameters demo_module))"
    by (simp_all add: demo_module_def)
  from hessian_vector_product_symmetric
    [where param_extract_fn = parameters and model = demo_module, OF l1 l2 r1 r2]
  have "dot [1, 0] [2, 2] = dot [0, 1] [4, 2]" .
  with r1 r2 show ?thesis by blast
qed

section \<open>Vectors of another length\<close>

text \<open>
  C2. The product is applied through the operator that \<^verbatim>\<open>get_hessian_eigenvectors\<close>
  builds around it. For every vector whose length differs from \<^verbatim>\<open>num_params\<close> the
  operator fails with the \<^verbatim>\<open>ValueError\<close> of a dimension mismatch, whatever the product
  would do with the vector: nothing is truncated, padded or broadcast into a result. For
  a vector of length \<^verbatim>\<open>num_params\<close> the operator is the product.
\<close>

theorem linear_operator_dimension_mismatch:
  "(length v \<noteq> sum_list (map length (param_extract_fn model)) \<longrightarrow>
      linear_operator compute_loss_fn param_extract_fn model images labels grads v
        = Inl ValueError)
   \<and> (length v = sum_list (map length (param_extract_fn model)) \<longrightarrow>
      linear_operator compute_loss_fn param_extract_fn model images labels grads v
        = matvec compute_loss_fn param_extract_fn model images labels grads v)"
proof (intro conjI impI)
  assume "length v \<noteq> sum_list (map length (param_extract_fn model))"
  then show "linear_operator compute_loss_fn param_extract_fn model images labels grads v
        = Inl ValueError"
    by (simp add: linear_operator_def LinearOperator_def)
next
  assume l: "length v = sum_list (map length (param_extract_fn model))"
  then have n: "length v = length (concat (param_extract_fn model))"
    by (simp add: length_concat)
  show "linear_operator compute_loss_fn param_extract_fn model images labels grads v
        = matvec compute_loss_fn param_extract_fn model images labels grads v"
  proof (cases "hessian_vector_product compute_loss_fn param_extract_fn model images labels
                  grads v")
    case (Inl e)
    then show ?thesis
      using l by (simp add: linear_operator_def LinearOperator_def matvec_def)
  next
    case (Inr p)
    obtain r g where p: "p = (r, g)" by (cases p)
    have "length r = length v"
      using hvp_result[where param_extract_fn = param_extract_fn and model = model, OF n,
          of compute_loss_fn images labels grads r g] Inr p n
      by simp
    then show ?thesis
      using l Inr p by (simp add: linear_operator_def LinearOperator_def matvec_def)
  qed
qed

theorem linear_operator_dimension_mismatch_witness:
  "linear_operator demo_loss parameters demo_module [] [] no_grads [3] = Inl ValueError
   \<and> linear_operator demo_loss parameters demo_module [] [] no_grads [3, 3, 3] = Inl ValueError
   \<and> linear_operator demo_loss parameters demo_module [] [] no_grads [1, 0] = Inr [4, 2]"
proof -
  have n: "sum_list (map length (parameters demo_module)) = 2"
    by (simp add: demo_module_def)
  have m: "matvec demo_loss parameters demo_module [] [] no_grads [1, 0] = Inr [4, 2]"
    by (simp add: matvec_def hvp_unfold demo_loss_def demo_module_def)
  note t = linear_operator_dimension_mismatch
    [where param_extract_fn = parameters and model = demo_module]
  from t[of "[3]" demo_loss "[]" "[]" no_grads] n
  have a: "linear_operator demo_loss parameters demo_module [] [] no_grads [3] = Inl ValueError"
    by simp
  from t[of "[3, 3, 3]" demo_loss "[]" "[]" no_grads] n
  have b: "linear_operator demo_loss parameters demo_module [] [] no_grads [3, 3, 3]
             = Inl ValueError"
    by simp
  from t[of "[1, 0]" demo_loss "[]" "[]" no_grads] n m
  have c: "linear_operator demo_loss parameters demo_module [] [] no_grads [1, 0] = Inr [4, 2]"
    by simp
  from a b c show ?thesis by blast
qed

section \<open>The layout of the eigenpairs\<close>

text \<open>
  C7. With a solver that returns its \<open>k\<close> eigenvalues in ascending order and its
  eigenvectors as the columns of an array with one row per parameter, the function
  returns these eigenvalues unchanged, hence ascending, and the transposed array: \<open>k\<close>
  rows of length \<^verbatim>\<open>num_params\<close>, row \<open>i\<close> being column \<open>i\<close> of the solver's array, the
  eigenvector of eigenvalue \<open>i\<close>.
\<close>

theorem get_hessian_eigenvectors_layout:
  assumes lib: "eigsh_contract eigsh"
    and res: "get_hessian_eigenvectors eigsh model compute_loss_fn train_data_loader num_batches
                device n_top_vectors param_extract_fn0 grads = Inr (eigenvalues, eigenvectors)"
  shows "sorted eigenvalues \<and> length eigenvalues = n_top_vectors
       \<and> nrows eigenvectors = n_top_vectors
       \<and> length (rows eigenvectors) = n_top_vectors
       \<and> (\<exists>images labels V.
             frozen_subset train_data_loader num_batches = Inr (images, labels)
           \<and> eigsh (sum_list (map length
                       ((case param_extract_fn0 of None \<Rightarrow> parameters | Some f \<Rightarrow> f) model)))
                (linear_operator compute_loss_fn
                   (case param_extract_fn0 of None \<Rightarrow> parameters | Some f \<Rightarrow> f)
                   model images labels grads)
                n_top_vectors = Inr (eigenvalues, V)
           \<and> eigenvectors = np_transpose V
           \<and> ncols eigenvectors = sum_list (map length
                       ((case param_extract_fn0 of None \<Rightarrow> parameters | Some f \<Rightarrow> f) model))
           \<and> (\<forall>i<n_top_vectors.
                 rows eigenvectors ! i = map (\<lambda>r. r ! i) (rows V)
               \<and> length (rows eigenvectors ! i) = ncols eigenvectors))"
proof -
  let ?pef = "case param_extract_fn0 of None \<Rightarrow> parameters | Some f \<Rightarrow> f"
  let ?n = "sum_list (map length (?pef model))"
  from res obtain images labels V where
    sub: "frozen_subset train_data_loader num_batches = Inr (images, labels)"
    and eig: "eigsh ?n (linear_operator compute_loss_fn ?pef model images labels grads)
                n_top_vectors = Inr (eigenvalues, V)"
    and tr: "eigenvectors = np_transpose V"
    by (auto simp: get_hessian_eigenvectors_def Let_def split: sum.splits prod.splits)
  from lib eig have c: "sorted eigenvalues" "length eigenvalues = n_top_vectors"
    "nrows V = ?n" "ncols V = n_top_vectors" "length (rows V) = ?n"
    unfolding eigsh_contract_def by blast+
  have rows: "\<forall>i<n_top_vectors. rows eigenvectors ! i = map (\<lambda>r. r ! i) (rows V)
               \<and> length (rows eigenvectors ! i) = ncols eigenvectors"
    using tr c by (simp add: np_transpose_def)
  have "nrows eigenvectors = n_top_vectors" "length (rows eigenvectors) = n_top_vectors"
    "ncols eigenvectors = ?n"
    using tr c by (simp_all add: np_transpose_def)
  with c sub eig tr rows show ?thesis by blast
qed

theorem get_hessian_eigenvectors_layout_witness:
  "eigsh_contract demo_eigsh
   \<and> get_hessian_eigenvectors demo_eigsh diag_module diag_loss [([1], [1])] 1 ''cpu'' 2 None
       no_grads
       = Inr ([4, 6], \<lparr>nrows = 2, ncols = 3, rows = [[0, 1, 0], [0, 0, 1]]\<rparr>)
   \<and> sorted [4, 6 :: real]"
proof -
  have c: "eigsh_contract demo_eigsh"
    by (auto simp: eigsh_contract_def demo_eigsh_def split: if_splits)
  have r: "get_hessian_eigenvectors demo_eigsh diag_module diag_loss [([1], [1])] 1 ''cpu'' 2
       None no_grads
       = Inr ([4, 6], \<lparr>nrows = 2, ncols = 3, rows = [[0, 1, 0], [0, 0, 1]]\<rparr>)"
    by (simp add: get_hessian_eigenvectors_def frozen_subset_def linear_operator_def
        LinearOperator_def matvec_def demo_eigsh_def
        np_transpose_def hvp_unfold diag_loss_def diag_module_def upt_rec)
  from get_hessian_eigenvectors_layout[OF c r] have "sorted [4, 6 :: real]" by blast
  with c r show ?thesis by blast
qed

end
